theory Spec2Isabelle
  imports Main "HOL-Library.Word"
begin

section \<open>Python primitives used by the two applications\<close>

text \<open>
  The two source files \<^verbatim>\<open>Claude_citations_v1.py\<close> and \<^verbatim>\<open>pdf_chat.py\<close> hold the
  same \<^verbatim>\<open>process_pdf\<close> and the same prompt handler; they differ in comments, in the
  document path and in an early return on a missing API key. One model covers both.

  A Python \<^verbatim>\<open>str\<close> is modelled as a \<^typ>\<open>string\<close>, one \<^typ>\<open>char\<close> for one code point
  (so the code points below 256); slicing and \<^verbatim>\<open>len\<close> count code points, as
  \<^const>\<open>take\<close> and \<^const>\<open>length\<close> count characters.
\<close>

type_synonym byte = "8 word"

text \<open>
  An attribute of a foreign object: absent, or present with a value.
  \<^verbatim>\<open>getattr(obj, name, default)\<close> returns the default exactly when the attribute is
  absent, and \<^verbatim>\<open>hasattr(obj, name)\<close> is a case distinction on the two constructors.
\<close>

datatype 'a attr = Missing | Present 'a

fun getattr_default :: "'a attr \<Rightarrow> 'a \<Rightarrow> 'a" where
  "getattr_default Missing d = d"
| "getattr_default (Present v) d = v"

text \<open>
  \<^verbatim>\<open>range(start, stop, step)\<close> for a positive step, as the loop that walks it.
  Python raises \<^verbatim>\<open>ValueError\<close> for step 0; the source only calls it with the literal
  100, and the model returns the empty list there.
\<close>

function py_range :: "nat \<Rightarrow> nat \<Rightarrow> nat \<Rightarrow> nat list" where
  "py_range start stop step =
     (if 0 < step \<and> start < stop then start # py_range (start + step) stop step else [])"
  by pat_completeness auto
termination
  by (relation "measure (\<lambda>(start, stop, step). stop - start)") auto

declare py_range.simps [simp del]

text \<open>\<^verbatim>\<open>str(n)\<close> for a non-negative integer, and for any integer.\<close>

definition digit_char :: "nat \<Rightarrow> char" where
  "digit_char d = char_of (48 + d)"

function str_nat :: "nat \<Rightarrow> string" where
  "str_nat n = (if n < 10 then [digit_char n] else str_nat (n div 10) @ [digit_char (n mod 10)])"
  by pat_completeness auto
termination
  by (relation "measure (\<lambda>n. n)") auto

declare str_nat.simps [simp del]

definition str_int :: "int \<Rightarrow> string" where
  "str_int i = (if i < 0 then ''-'' @ str_nat (nat (- i)) else str_nat (nat i))"

text \<open>
  \<^verbatim>\<open>os.path.basename\<close> on a POSIX path: what follows the last slash.
\<close>

definition basename :: "string \<Rightarrow> string" where
  "basename p = rev (takeWhile (\<lambda>c. c \<noteq> CHR ''/'') (rev p))"

text \<open>
  \<^verbatim>\<open>str.strip()\<close> removes leading and trailing whitespace. Among the code points
  below 256 Python's whitespace is 9 to 13, 28 to 32, 133 and 160.
\<close>

definition py_isspace :: "char \<Rightarrow> bool" where
  "py_isspace c =
     (let n = (of_char c :: nat)
      in (9 \<le> n \<and> n \<le> 13) \<or> (28 \<le> n \<and> n \<le> 32) \<or> n = 133 \<or> n = 160)"

definition py_strip :: "string \<Rightarrow> string" where
  "py_strip s = rev (dropWhile py_isspace (rev (dropWhile py_isspace s)))"

section \<open>The chunker: \<^verbatim>\<open>process_pdf\<close>\<close>

datatype error =
    FileNotFoundError string
  | PdfReadError string
  | ValueError string
  | AttributeError string
  | IndexError string
  | APIError string

text \<open>
  The PDF library, the digest and the encoder are third-party code, taken as parameters.
  \<^item> \<open>PdfReader\<close>: what \<^verbatim>\<open>PdfReader(file)\<close> followed by \<^verbatim>\<open>len(pdf_reader.pages)\<close>
    gives on a file with these bytes: an exception, or the pages together with the
    position at which the reader leaves the stream.
  \<^item> \<open>write_pdf\<close>: what a new \<^verbatim>\<open>PdfWriter\<close> gives for these pages of the reader: each
    page is fetched (\<^verbatim>\<open>pdf_reader.pages[page]\<close>) and added with \<^verbatim>\<open>add_page\<close>, in order,
    and the writer is written to a buffer. The result is the first exception one of
    these calls raises, or the bytes written.
  \<^item> \<open>md5_hexdigest\<close>: \<^verbatim>\<open>hashlib.md5(b).hexdigest()\<close>.
  \<^item> \<open>b64encode\<close>: \<^verbatim>\<open>base64.b64encode(b).decode('utf-8')\<close>.
\<close>

record 'p pdflib =
  PdfReader :: "byte list \<Rightarrow> error + ('p list \<times> nat)"
  write_pdf :: "'p list \<Rightarrow> error + byte list"
  md5_hexdigest :: "byte list \<Rightarrow> string"
  b64encode :: "byte list \<Rightarrow> string"

record source =
  src_type :: string
  media_type :: string
  data :: string

record document =
  doc_type :: string
  doc_source :: source
  title :: string
  citations_enabled :: bool

text \<open>
  The loop of \<^verbatim>\<open>process_pdf\<close> visits \<^verbatim>\<open>range(0, num_pages, 100)\<close> and takes the pages
  \<^verbatim>\<open>range(start, min(start + 100, num_pages))\<close> at each start. The window size is a
  parameter of the two definitions below; \<^verbatim>\<open>process_pdf\<close> passes the literal 100.
\<close>

definition chunk_starts :: "nat \<Rightarrow> nat \<Rightarrow> nat list" where
  "chunk_starts W num_pages = py_range 0 num_pages W"

definition page_range :: "nat \<Rightarrow> nat \<Rightarrow> nat \<Rightarrow> nat list" where
  "page_range W num_pages start = [start ..< min (start + W) num_pages]"

text \<open>
  One pass of the loop body: the pages of the window are written to a new PDF, the bytes
  are encoded, and the document unit is built. An exception of the writer leaves the
  loop and the function.
\<close>

definition make_unit :: "'p pdflib \<Rightarrow> string \<Rightarrow> 'p list \<Rightarrow> nat \<Rightarrow> error + document" where
  "make_unit lib file_path pages start =
     (let num_pages = length pages
      in case write_pdf lib (map (\<lambda>page. pages ! page) (page_range 100 num_pages start)) of
           Inl e \<Rightarrow> Inl e
         | Inr pdf_bytes \<Rightarrow>
             (let base64_pdf = b64encode lib pdf_bytes
              in Inr \<lparr> doc_type = ''document'',
                       doc_source = \<lparr> src_type = ''base64'', media_type = ''application/pdf'',
                                      data = base64_pdf \<rparr>,
                       title = basename file_path @ '' (pages '' @ str_nat (start + 1) @ ''-''
                                 @ str_nat (min (start + 100) num_pages) @ '')'',
                       citations_enabled = True \<rparr>))"

text \<open>
  The loop over the starts, appending each unit to the list \<^verbatim>\<open>documents\<close>; it stops at
  the first exception.
\<close>

fun build_units ::
  "'p pdflib \<Rightarrow> string \<Rightarrow> 'p list \<Rightarrow> nat list \<Rightarrow> document list \<Rightarrow> error + document list" where
  "build_units lib file_path pages [] documents = Inr documents"
| "build_units lib file_path pages (start # rest) documents =
     (case make_unit lib file_path pages start of
        Inl e \<Rightarrow> Inl e
      | Inr unit \<Rightarrow> build_units lib file_path pages rest (documents @ [unit]))"

text \<open>
  \<^verbatim>\<open>process_pdf(file_path)\<close> over a file system that maps a path to the bytes of the
  file. The digest is taken from \<^verbatim>\<open>file.read()\<close>, which reads from the position where
  the reader has left the stream; \<^verbatim>\<open>file.seek(0)\<close> comes after it. Every exception
  raised inside the \<^verbatim>\<open>try\<close> (opening the file, the reader, the writer) is shown by the
  handler and raised again, so the caller sees the same error.
  The memoising decorator \<^verbatim>\<open>st.cache_data\<close> belongs to the UI framework; the model is
  the body of the function.
\<close>

definition process_pdf ::
  "'p pdflib \<Rightarrow> (string \<rightharpoonup> byte list) \<Rightarrow> string \<Rightarrow> error + (document list \<times> string)" where
  "process_pdf lib fs file_path =
     (case fs file_path of
        None \<Rightarrow> Inl (FileNotFoundError file_path)
      | Some bytes \<Rightarrow>
          (case PdfReader lib bytes of
             Inl e \<Rightarrow> Inl e
           | Inr (pages, pos) \<Rightarrow>
               (let num_pages = length pages;
                    content_hash = md5_hexdigest lib (drop pos bytes)
                in case build_units lib file_path pages (chunk_starts 100 num_pages) [] of
                     Inl e \<Rightarrow> Inl e
                   | Inr documents \<Rightarrow> Inr (documents, content_hash))))"

section \<open>The conversation assembler: the prompt handler of \<^verbatim>\<open>main\<close>\<close>

subsection \<open>Transcript, request and response\<close>

text \<open>
  A citation as stored in the transcript (the dict with the keys \<^verbatim>\<open>document\<close>,
  \<^verbatim>\<open>start_page\<close>, \<^verbatim>\<open>end_page\<close>, \<^verbatim>\<open>text\<close>). The title is whatever the attribute
  held, which may be Python's \<^verbatim>\<open>None\<close>.
\<close>

record citation =
  cite_document :: "string option"
  start_page :: int
  end_page :: int
  cite_text :: string

record turn =
  role :: string
  content :: string
  citations :: "citation list"

datatype block = DocumentBlock document | TextBlock string

record message =
  msg_role :: string
  msg_content :: "block list"

text \<open>
  The reply of the remote boundary: a citation annotation, a content block, and the
  result object. Each attribute the source reads through \<^verbatim>\<open>getattr\<close> or \<^verbatim>\<open>hasattr\<close>
  may be absent.
\<close>

record annotation =
  document_title :: "string option attr"
  start_page_number :: "int attr"
  end_page_number :: "int attr"
  cited_text :: "string attr"

record content_block =
  cb_type :: string
  cb_text :: "string attr"
  cb_citations :: "annotation list option attr"

record api_response =
  resp_content :: "content_block list attr"

text \<open>
  \<^verbatim>\<open>client.messages.create\<close> with the fixed model name, token ceiling and temperature
  of the source: it raises, or returns a result, which may be falsy (no result object).
\<close>

type_synonym client = "message list \<Rightarrow> error + api_response option"

subsection \<open>The UI and the session state\<close>

text \<open>
  The widgets the handler emits, each with the container it is written into
  (\<^verbatim>\<open>user\<close> or \<^verbatim>\<open>assistant\<close> chat message, or the page itself). \<^verbatim>\<open>st.error\<close> is an
  \<open>ErrorBox\<close> holding the exception whose text it shows, and \<^verbatim>\<open>st.code\<close> of the
  traceback is a \<open>TracebackCode\<close>. The spinner is transient and not recorded.
\<close>

datatype widget =
    Markdown string
  | Subheader string
  | JsonRequest "message list"
  | JsonResponse api_response
  | ErrorBox error
  | TracebackCode error

type_synonym ui_event = "string \<times> widget"

record session =
  messages :: "turn list"
  ui :: "ui_event list"

definition initial_messages :: "turn list" where
  "initial_messages =
     [\<lparr> role = ''assistant'', content = ''Ask me anything about the document!'',
        citations = [] \<rparr>]"

subsection \<open>Message assembly\<close>

definition history_message :: "turn \<Rightarrow> message" where
  "history_message msg =
     \<lparr> msg_role = role msg, msg_content = [TextBlock (content msg)] \<rparr>"

text \<open>
  The request built inside the \<^verbatim>\<open>try\<close> block from the documents, the prompt and the
  session's messages, whose last element is the turn just appended for the prompt.
  \<^verbatim>\<open>messages[:-1]\<close> is \<^const>\<open>butlast\<close>; the test \<^verbatim>\<open>if history\<close> guards a loop that does
  nothing on an empty list.
\<close>

definition build_messages :: "document list \<Rightarrow> string \<Rightarrow> turn list \<Rightarrow> message list" where
  "build_messages documents prompt session_messages =
     (let first = \<lparr> msg_role = ''user'',
                     msg_content = map DocumentBlock documents @ [TextBlock prompt] \<rparr>;
          history = butlast session_messages
      in if history \<noteq> []
         then [first] @ map history_message (filter (\<lambda>msg. py_strip (content msg) \<noteq> []) history)
         else [first])"

subsection \<open>Normalisation of the reply\<close>

definition normalize_cite :: "annotation \<Rightarrow> citation" where
  "normalize_cite cite =
     \<lparr> cite_document = getattr_default (document_title cite) (Some ''Unknown Document''),
       start_page = getattr_default (start_page_number cite) 0,
       end_page = getattr_default (end_page_number cite) 0,
       cite_text = take 150 (getattr_default (cited_text cite) []) @ ''...'' \<rparr>"

text \<open>
  \<^verbatim>\<open>hasattr(content_block, 'citations') and content_block.citations\<close> lets the inner
  loop run on a present, non-empty list only.
\<close>

fun extract_citations :: "annotation list option attr \<Rightarrow> citation list" where
  "extract_citations (Present (Some (c # cs))) = map normalize_cite (c # cs)"
| "extract_citations _ = []"

text \<open>
  The loop over the content blocks, with its two accumulators. Reading \<^verbatim>\<open>.text\<close> of a
  text block that has no such attribute raises \<^verbatim>\<open>AttributeError\<close>.
\<close>

fun process_blocks ::
  "content_block list \<Rightarrow> citation list \<Rightarrow> string \<Rightarrow> error + (citation list \<times> string)" where
  "process_blocks [] cites full_response = Inr (cites, full_response)"
| "process_blocks (content_block # rest) cites full_response =
     (if cb_type content_block = ''text''
      then (case cb_text content_block of
              Missing \<Rightarrow> Inl (AttributeError ''text'')
            | Present t \<Rightarrow>
                process_blocks rest
                  (cites @ extract_citations (cb_citations content_block))
                  (full_response @ t))
      else process_blocks rest cites full_response)"

definition normalize :: "content_block list \<Rightarrow> error + (citation list \<times> string)" where
  "normalize blocks = process_blocks blocks [] []"

text \<open>
  The annotations the inner loop visits for one content block, and whether a request
  block is a document: two notions for stating what the loops do.
\<close>

definition visited_annotations :: "content_block \<Rightarrow> annotation list" where
  "visited_annotations content_block =
     (if cb_type content_block = ''text''
      then (case cb_citations content_block of
              Present (Some cs) \<Rightarrow> cs
            | _ \<Rightarrow> [])
      else [])"

fun is_document :: "block \<Rightarrow> bool" where
  "is_document (DocumentBlock d) = True"
| "is_document (TextBlock t) = False"

definition whitespace_only :: "string \<Rightarrow> bool" where
  "whitespace_only s = list_all py_isspace s"

subsection \<open>Rendering the references\<close>

definition reference_line :: "nat \<Rightarrow> citation \<Rightarrow> string" where
  "reference_line idx cite =
     (let source = (case cite_document cite of
                      None \<Rightarrow> ''the document''
                    | Some d \<Rightarrow> if d \<noteq> [] then [CHR 0x60] @ d @ [CHR 0x60]
                               else ''the document'')
      in str_nat idx @ ''. From '' @ source @ '' (page '' @ str_int (start_page cite)
           @ ''):  '' @ [CHR 0x0A, CHR 0x60] @ cite_text cite @ [CHR 0x60])"

definition render_references :: "string \<Rightarrow> citation list \<Rightarrow> ui_event list" where
  "render_references container cites =
     (if cites \<noteq> []
      then [(container, Markdown ''---''), (container, Markdown ''**References:**'')]
           @ map (\<lambda>(idx, cite). (container, Markdown (reference_line idx cite)))
               (zip [1 ..< Suc (length cites)] cites)
      else [])"

subsection \<open>One exchange\<close>

definition emit :: "ui_event list \<Rightarrow> session \<Rightarrow> session" where
  "emit events st = st\<lparr> ui := ui st @ events \<rparr>"

definition user_turn :: "string \<Rightarrow> turn" where
  "user_turn prompt = \<lparr> role = ''user'', content = prompt, citations = [] \<rparr>"

definition assistant_turn :: "string \<Rightarrow> citation list \<Rightarrow> turn" where
  "assistant_turn full_response cites =
     \<lparr> role = ''assistant'', content = full_response, citations = cites \<rparr>"

text \<open>
  What runs before the \<^verbatim>\<open>try\<close> block: the user's turn is appended to the transcript
  and the prompt is shown.
\<close>

definition begin_exchange :: "string \<Rightarrow> session \<Rightarrow> session" where
  "begin_exchange prompt st =
     emit [(''user'', Markdown prompt)]
       (st\<lparr> messages := messages st @ [user_turn prompt] \<rparr>)"

text \<open>
  The body of the \<^verbatim>\<open>try\<close> block: the result is the exception raised, if any, and the
  session as it is when the block is left.
\<close>

definition try_block ::
  "client \<Rightarrow> document list \<Rightarrow> bool \<Rightarrow> string \<Rightarrow> session \<Rightarrow> (error + unit) \<times> session" where
  "try_block create documents debug_mode prompt st =
     (let request = build_messages documents prompt (messages st);
          st1 = (if debug_mode
                 then emit [(''assistant'', Subheader ''Debug Information''),
                            (''assistant'', JsonRequest request)] st
                 else st)
      in case create request of
           Inl e \<Rightarrow> (Inl e, st1)
         | Inr None \<Rightarrow> (Inl (ValueError ''Empty API response - no data received''), st1)
         | Inr (Some response) \<Rightarrow>
             (case resp_content response of
                Missing \<Rightarrow>
                  (Inl (ValueError ''Malformed API response - missing content field''), st1)
              | Present blocks \<Rightarrow>
                  (let st2 = (if debug_mode
                              then emit [(''assistant'', JsonResponse response)] st1
                              else st1)
                   in case normalize blocks of
                        Inl e \<Rightarrow> (Inl e, st2)
                      | Inr (cites, full_response) \<Rightarrow>
                          (let st3 = emit ((''assistant'', Markdown full_response)
                                           # render_references ''assistant'' cites) st2
                           in (Inr (),
                               st3\<lparr> messages :=
                                      messages st3 @ [assistant_turn full_response cites] \<rparr>)))))"

text \<open>
  The \<^verbatim>\<open>except\<close> handler: the error is shown, with the traceback in debug mode, and
  the last turn is popped from the transcript. \<^verbatim>\<open>pop()\<close> raises on an empty list and
  is \<^const>\<open>butlast\<close> otherwise.
\<close>

definition handler :: "bool \<Rightarrow> error \<Rightarrow> session \<Rightarrow> (error + unit) \<times> session" where
  "handler debug_mode e st =
     (let st1 = emit ((''page'', ErrorBox e)
                      # (if debug_mode then [(''page'', TracebackCode e)] else [])) st
      in case messages st1 of
           [] \<Rightarrow> (Inl (IndexError ''pop from empty list''), st1)
         | _ # _ \<Rightarrow> (Inl e, st1\<lparr> messages := butlast (messages st1) \<rparr>))"

text \<open>
  The handler of a submitted prompt. The result is \<open>Inr ()\<close> when the exchange
  succeeded and \<open>Inl e\<close> when the exception \<open>e\<close> was caught. The source runs it
  only for a prompt that is not empty; nothing below depends on that.
\<close>

definition exchange ::
  "client \<Rightarrow> document list \<Rightarrow> bool \<Rightarrow> string \<Rightarrow> session \<Rightarrow> (error + unit) \<times> session" where
  "exchange create documents debug_mode prompt st =
     (case try_block create documents debug_mode prompt (begin_exchange prompt st) of
        (Inr u, st') \<Rightarrow> (Inr u, st')
      | (Inl e, st') \<Rightarrow> handler debug_mode e st')"

section \<open>A small stand-in for the libraries, for concrete runs\<close>

text \<open>
  A file of this stand-in holds one header byte and then one byte per page; the reader
  rejects the empty file and leaves the stream at its end. The writer returns the pages
  as they are and fails on a page whose byte is 255, the digest is the sum of the bytes
  in decimal, and the encoder writes each byte in decimal.
\<close>

definition stub_lib :: "byte pdflib" where
  "stub_lib =
     \<lparr> PdfReader = (\<lambda>bs. if bs = [] then Inl (PdfReadError ''Cannot read an empty file'')
                          else Inr (tl bs, length bs)),
       write_pdf = (\<lambda>ps. if 255 \<in> set ps then Inl (PdfReadError ''Could not read the page'')
                          else Inr ps),
       md5_hexdigest = (\<lambda>bs. str_nat (sum_list (map unat bs))),
       b64encode = (\<lambda>bs. concat (map (\<lambda>b. str_nat (unat b)) bs)) \<rparr>"

definition stub_fs :: "string \<rightharpoonup> byte list" where
  "stub_fs = [''documents/a.pdf'' \<mapsto> [7, 1], ''documents/b.pdf'' \<mapsto> [7, 1],
              ''backup/a.pdf'' \<mapsto> [7, 1],
              ''documents/empty.pdf'' \<mapsto> [7],
              ''documents/damaged.pdf'' \<mapsto> [7, 1, 255],
              ''documents/long.pdf'' \<mapsto> 7 # replicate 100 1 @ [2],
              ''documents/thesis.pdf'' \<mapsto> 7 # replicate 100 1 @ replicate 100 2 @ replicate 50 3]"

definition text_block :: "string \<Rightarrow> annotation list \<Rightarrow> content_block" where
  "text_block t cs = \<lparr> cb_type = ''text'', cb_text = Present t, cb_citations = Present (Some cs) \<rparr>"

definition bare_annotation :: annotation where
  "bare_annotation =
     \<lparr> document_title = Missing, start_page_number = Missing, end_page_number = Missing,
       cited_text = Present ''abc'' \<rparr>"

definition no_result_client :: client where
  "no_result_client request = Inr None"

definition no_content_client :: client where
  "no_content_client request = Inr (Some \<lparr> resp_content = Missing \<rparr>)"

definition failing_client :: client where
  "failing_client request = Inl (APIError ''Connection error.'')"


definition textless_client :: client where
  "textless_client request =
     Inr (Some \<lparr> resp_content =
                   Present [\<lparr> cb_type = ''text'', cb_text = Missing, cb_citations = Missing \<rparr>] \<rparr>)"

definition blank_turn :: turn where
  "blank_turn = \<lparr> role = ''assistant'', content = ''  '', citations = [] \<rparr>"

definition fresh_session :: session where
  "fresh_session = \<lparr> messages = initial_messages, ui = [] \<rparr>"

section \<open>Properties of the chunker\<close>

lemma py_range_step:
  "0 < step \<Longrightarrow> start < stop \<Longrightarrow> py_range start stop step = start # py_range (start + step) stop step"
  by (subst py_range.simps) simp

lemma py_range_done:
  "\<not> (0 < step \<and> start < stop) \<Longrightarrow> py_range start stop step = []"
  by (subst py_range.simps) simp

lemma concat_page_range:
  "0 < W \<Longrightarrow> concat (map (page_range W N) (py_range a N W)) = [a ..< N]"
proof (induction a N W rule: py_range.induct)
  case (1 start stop step)
  show ?case
  proof (cases "start < stop")
    case True
    have ih: "concat (map (page_range step stop) (py_range (start + step) stop step)) = [start + step ..< stop]"
      using "1.IH" "1.prems" True by simp
    have unfold: "concat (map (page_range step stop) (py_range start stop step))
        = page_range step stop start @ [start + step ..< stop]"
      using True "1.prems" ih by (simp add: py_range_step)
    show ?thesis
    proof (cases "start + step \<le> stop")
      case le: True
      have "[start ..< stop] = [start ..< start + step] @ [start + step ..< stop]"
        using le by (metis le_add1 le_Suc_ex upt_add_eq_append)
      moreover have "page_range step stop start = [start ..< start + step]"
        using le by (simp add: page_range_def min_def)
      ultimately show ?thesis using unfold by simp
    next
      case False
      then have "page_range step stop start = [start ..< stop]" "[start + step ..< stop] = []"
        by (simp_all add: page_range_def min_def)
      then show ?thesis using unfold by simp
    qed
  next
    case False
    then show ?thesis by (simp add: py_range_done)
  qed
qed

lemma py_range_members:
  "0 < W \<Longrightarrow> s \<in> set (py_range a N W) \<Longrightarrow> a \<le> s \<and> s < N"
proof (induction a N W rule: py_range.induct)
  case (1 start stop step)
  show ?case
  proof (cases "start < stop")
    case True
    then show ?thesis
      using "1.IH" "1.prems" by (auto simp: py_range_step)
  next
    case False
    then show ?thesis using "1.prems" by (simp add: py_range_done)
  qed
qed

lemma length_py_range:
  "0 < W \<Longrightarrow> length (py_range a N W) = (N - a + (W - 1)) div W"
proof (induction a N W rule: py_range.induct)
  case (1 start stop step)
  show ?case
  proof (cases "start < stop")
    case True
    have ih: "length (py_range (start + step) stop step) = (stop - (start + step) + (step - 1)) div step"
      using "1.IH" "1.prems" True by simp
    show ?thesis
    proof (cases "start + step \<le> stop")
      case le: True
      have "stop - start + (step - 1) = (stop - (start + step) + (step - 1)) + step"
        using le by simp
      then have "(stop - start + (step - 1)) div step = Suc ((stop - (start + step) + (step - 1)) div step)"
        using "1.prems" by (simp only: div_add_self2)
      then show ?thesis using True "1.prems" ih by (simp add: py_range_step)
    next
      case False
      then have a: "stop - (start + step) = 0" by simp
      have b: "step \<le> stop - start + (step - 1)" using True by simp
      have c: "stop - start + (step - 1) < 2 * step" using False True by simp
      have "(stop - start + (step - 1)) div step = 1"
        using b c "1.prems" by (simp add: div_nat_eqI)
      then show ?thesis using True "1.prems" ih a by (simp add: py_range_step)
    qed
  next
    case False
    then show ?thesis using "1.prems" by (simp add: py_range_done)
  qed
qed

lemma py_range_nth:
  "0 < W \<Longrightarrow> i < length (py_range a N W) \<Longrightarrow> py_range a N W ! i = a + i * W"
proof (induction a N W arbitrary: i rule: py_range.induct)
  case (1 start stop step)
  show ?case
  proof (cases "start < stop")
    case True
    then show ?thesis
      using "1.IH"[of "i - 1"] "1.prems" by (cases i) (auto simp: py_range_step)
  next
    case False
    then show ?thesis using "1.prems" by (simp add: py_range_done)
  qed
qed


lemma str_nat_small: "n < 10 \<Longrightarrow> str_nat n = [digit_char n]"
  by (subst str_nat.simps) simp

lemma str_nat_big: "10 \<le> n \<Longrightarrow> str_nat n = str_nat (n div 10) @ [digit_char (n mod 10)]"
  by (subst str_nat.simps) simp

lemma str_nat_values:
  "str_nat 0 = ''0''" "str_nat 1 = ''1''" "str_nat (Suc 0) = ''1''" "str_nat 2 = ''2''"
  "str_nat 3 = ''3''"
  "str_nat 100 = ''100''" "str_nat 101 = ''101''"
  "str_nat 200 = ''200''" "str_nat 201 = ''201''" "str_nat 250 = ''250''"
  by code_simp+

lemma chunk_starts_250: "chunk_starts 100 250 = [0, 100, 200]"
  by (simp add: chunk_starts_def py_range_step py_range_done)

lemma length_chunk_starts: "0 < W \<Longrightarrow> length (chunk_starts W N) = (N + (W - 1)) div W"
  by (simp add: chunk_starts_def length_py_range)

lemma chunk_starts_nth:
  "0 < W \<Longrightarrow> i < length (chunk_starts W N) \<Longrightarrow> chunk_starts W N ! i = i * W"
  by (simp add: chunk_starts_def py_range_nth)

lemma chunk_starts_members:
  "0 < W \<Longrightarrow> start \<in> set (chunk_starts W N) \<Longrightarrow> start < N"
  using py_range_members [of W start 0 N] by (simp add: chunk_starts_def)

lemma units_cover_pages:
  "concat (map (\<lambda>start. map (\<lambda>page. pages ! page) (page_range 100 (length pages) start))
             (chunk_starts 100 (length pages))) = pages"
proof -
  have "concat (map (\<lambda>start. map (\<lambda>page. pages ! page) (page_range 100 (length pages) start))
             (chunk_starts 100 (length pages)))
        = map (\<lambda>page. pages ! page)
            (concat (map (page_range 100 (length pages)) (chunk_starts 100 (length pages))))"
    by (simp add: map_concat comp_def)
  also have "\<dots> = map (\<lambda>page. pages ! page) [0 ..< length pages]"
    by (simp add: chunk_starts_def concat_page_range)
  also have "\<dots> = pages"
    by (rule map_nth)
  finally show ?thesis .
qed

lemma map_nth_window:
  "b \<le> length xs \<Longrightarrow> map (\<lambda>i. xs ! i) [a ..< b] = take (b - a) (drop a xs)"
  by (auto simp: list_eq_iff_nth_eq)

lemma window_take_drop:
  "map (\<lambda>page. pages ! page) (page_range 100 (length pages) start) = take 100 (drop start pages)"
proof (cases "start + 100 \<le> length pages")
  case True
  then show ?thesis
    by (simp add: page_range_def map_nth_window min_def)
next
  case False
  then have "take 100 (drop start pages) = drop start pages"
    by simp
  moreover have "map (\<lambda>page. pages ! page) (page_range 100 (length pages) start)
                   = take (length pages - start) (drop start pages)"
    using False by (simp add: page_range_def map_nth_window min_def)
  ultimately show ?thesis by simp
qed

lemma concat_replicate_single: "concat (replicate n [c]) = replicate n c"
  by (induction n) simp_all

lemma chunk_starts_101: "chunk_starts 100 101 = [0, 100]"
  by (simp add: chunk_starts_def py_range_step py_range_done)

lemma chunk_starts_single: "0 < N \<Longrightarrow> N \<le> W \<Longrightarrow> chunk_starts W N = [0]"
  by (simp add: chunk_starts_def py_range_step py_range_done)

lemma chunk_starts_0: "chunk_starts W 0 = []"
  by (simp add: chunk_starts_def py_range_done)

lemma chunk_windows_partition:
  assumes "0 < W"
  shows "concat (map (page_range W N) (chunk_starts W N)) = [0 ..< N]
       \<and> (\<forall>start \<in> set (chunk_starts W N).
             page_range W N start \<noteq> [] \<and> length (page_range W N start) \<le> W)
       \<and> (\<forall>i. Suc i < length (chunk_starts W N) \<longrightarrow>
             chunk_starts W N ! Suc i = min (chunk_starts W N ! i + W) N)
       \<and> sum_list (map (\<lambda>start. length (page_range W N start)) (chunk_starts W N)) = N"
proof (intro conjI)
  show cover: "concat (map (page_range W N) (chunk_starts W N)) = [0 ..< N]"
    using assms by (simp add: chunk_starts_def concat_page_range)
  show "\<forall>start \<in> set (chunk_starts W N).
          page_range W N start \<noteq> [] \<and> length (page_range W N start) \<le> W"
  proof
    fix start assume "start \<in> set (chunk_starts W N)"
    then have "start < N" using assms by (rule chunk_starts_members [rotated])
    then show "page_range W N start \<noteq> [] \<and> length (page_range W N start) \<le> W"
      using assms by (auto simp: page_range_def min_def)
  qed
  show "\<forall>i. Suc i < length (chunk_starts W N) \<longrightarrow>
          chunk_starts W N ! Suc i = min (chunk_starts W N ! i + W) N"
  proof (intro allI impI)
    fix i assume i: "Suc i < length (chunk_starts W N)"
    then have "chunk_starts W N ! Suc i \<in> set (chunk_starts W N)" by simp
    then have "chunk_starts W N ! Suc i < N" using assms by (rule chunk_starts_members [rotated])
    moreover have "chunk_starts W N ! Suc i = Suc i * W" "chunk_starts W N ! i = i * W"
      using assms i by (simp_all add: chunk_starts_nth)
    ultimately show "chunk_starts W N ! Suc i = min (chunk_starts W N ! i + W) N"
      by simp
  qed
  have "length (concat (map (page_range W N) (chunk_starts W N))) = N"
    by (simp only: cover) simp
  then show "sum_list (map (\<lambda>start. length (page_range W N start)) (chunk_starts W N)) = N"
    by (simp add: length_concat comp_def)
qed

subsection \<open>What the loop returns\<close>

lemma make_unit_Inr:
  "make_unit lib file_path pages start = Inr unit \<longleftrightarrow>
     (\<exists>pdf_bytes.
        write_pdf lib (map (\<lambda>page. pages ! page) (page_range 100 (length pages) start))
          = Inr pdf_bytes
      \<and> unit = \<lparr> doc_type = ''document'',
                 doc_source = \<lparr> src_type = ''base64'', media_type = ''application/pdf'',
                                data = b64encode lib pdf_bytes \<rparr>,
                 title = basename file_path @ '' (pages '' @ str_nat (start + 1) @ ''-''
                           @ str_nat (min (start + 100) (length pages)) @ '')'',
                 citations_enabled = True \<rparr>)"
  by (auto simp: make_unit_def Let_def split: sum.splits)

lemma make_unit_take_drop:
  "make_unit lib file_path pages start =
     (case write_pdf lib (take 100 (drop start pages)) of
        Inl e \<Rightarrow> Inl e
      | Inr pdf_bytes \<Rightarrow>
          Inr \<lparr> doc_type = ''document'',
                doc_source = \<lparr> src_type = ''base64'', media_type = ''application/pdf'',
                               data = b64encode lib pdf_bytes \<rparr>,
                title = basename file_path @ '' (pages '' @ str_nat (start + 1) @ ''-''
                          @ str_nat (min (start + 100) (length pages)) @ '')'',
                citations_enabled = True \<rparr>)"
  by (simp add: make_unit_def Let_def window_take_drop split: sum.splits)

lemma make_unit_Inl:
  "make_unit lib file_path pages start = Inl e \<longleftrightarrow>
     write_pdf lib (map (\<lambda>page. pages ! page) (page_range 100 (length pages) start)) = Inl e"
  by (auto simp: make_unit_def Let_def split: sum.splits)

lemma build_units_Inr:
  "build_units lib file_path pages starts acc = Inr documents \<longleftrightarrow>
     (\<exists>units. documents = acc @ units
            \<and> map (make_unit lib file_path pages) starts = map Inr units)"
proof (induction starts arbitrary: acc)
  case Nil
  then show ?case by auto
next
  case (Cons start rest)
  show ?case
  proof (cases "make_unit lib file_path pages start")
    case (Inl e)
    then show ?thesis by (auto simp: Cons_eq_map_conv)
  next
    case (Inr unit)
    have "build_units lib file_path pages (start # rest) acc = Inr documents \<longleftrightarrow>
            (\<exists>units. documents = (acc @ [unit]) @ units
                   \<and> map (make_unit lib file_path pages) rest = map Inr units)"
      using Inr Cons.IH by simp
    also have "\<dots> \<longleftrightarrow> (\<exists>units. documents = acc @ units
            \<and> map (make_unit lib file_path pages) (start # rest) = map Inr units)"
    proof
      assume "\<exists>units. documents = (acc @ [unit]) @ units
                   \<and> map (make_unit lib file_path pages) rest = map Inr units"
      then obtain units where "documents = acc @ (unit # units)"
        "map (make_unit lib file_path pages) (start # rest) = map Inr (unit # units)"
        using Inr by auto
      then show "\<exists>units. documents = acc @ units
            \<and> map (make_unit lib file_path pages) (start # rest) = map Inr units"
        by blast
    next
      assume "\<exists>units. documents = acc @ units
            \<and> map (make_unit lib file_path pages) (start # rest) = map Inr units"
      then obtain units where u: "documents = acc @ units"
        "map (make_unit lib file_path pages) (start # rest) = map Inr units"
        by blast
      then obtain units' where "units = unit # units'"
        "map (make_unit lib file_path pages) rest = map Inr units'"
        using Inr by (auto simp: Cons_eq_map_conv)
      then show "\<exists>units. documents = (acc @ [unit]) @ units
                   \<and> map (make_unit lib file_path pages) rest = map Inr units"
        using u by auto
    qed
    finally show ?thesis .
  qed
qed

lemma build_units_failure:
  "start \<in> set starts \<Longrightarrow> make_unit lib file_path pages start = Inl e \<Longrightarrow>
   \<exists>e'. build_units lib file_path pages starts acc = Inl e'"
proof (induction starts arbitrary: acc)
  case Nil
  then show ?case by simp
next
  case (Cons s rest)
  then show ?case
    by (cases "make_unit lib file_path pages s") auto
qed

lemma process_pdf_Inr:
  assumes "fs file_path = Some bytes" and "PdfReader lib bytes = Inr (pages, pos)"
  shows "process_pdf lib fs file_path = Inr (documents, content_hash) \<longleftrightarrow>
           map (make_unit lib file_path pages) (chunk_starts 100 (length pages)) = map Inr documents
         \<and> content_hash = md5_hexdigest lib (drop pos bytes)"
proof -
  have "build_units lib file_path pages (chunk_starts 100 (length pages)) [] = Inr documents
          \<longleftrightarrow> map (make_unit lib file_path pages) (chunk_starts 100 (length pages))
                = map Inr documents"
    by (simp add: build_units_Inr)
  then show ?thesis
    using assms
    by (cases "build_units lib file_path pages (chunk_starts 100 (length pages)) []")
       (auto simp: process_pdf_def Let_def)
qed


text \<open>
  A page the writer cannot copy makes the whole function fail: no unit is returned.
\<close>

lemma process_pdf_writer_failure:
  assumes "fs file_path = Some bytes" and "PdfReader lib bytes = Inr (pages, pos)"
      and "start \<in> set (chunk_starts 100 (length pages))"
      and "write_pdf lib (map (\<lambda>page. pages ! page) (page_range 100 (length pages) start)) = Inl e"
  shows "\<exists>e'. process_pdf lib fs file_path = Inl e'"
proof -
  have "make_unit lib file_path pages start = Inl e"
    using assms(4) by (simp add: make_unit_Inl)
  from build_units_failure [OF assms(3) this]
  obtain e' where "build_units lib file_path pages (chunk_starts 100 (length pages)) [] = Inl e'"
    by blast
  then show ?thesis
    using assms(1,2) by (simp add: process_pdf_def)
qed

lemma damaged_file_fails:
  "process_pdf stub_lib stub_fs ''documents/damaged.pdf''
     = Inl (PdfReadError ''Could not read the page'')"
  by (simp add: process_pdf_def stub_fs_def stub_lib_def make_unit_take_drop chunk_starts_single)

lemma units_nth:
  assumes "map (make_unit lib file_path pages) starts = map Inr documents"
      and "i < length documents"
  shows "make_unit lib file_path pages (starts ! i) = Inr (documents ! i)"
proof -
  have "length starts = length documents"
    using assms(1) by (metis length_map)
  then have "map (make_unit lib file_path pages) starts ! i
               = make_unit lib file_path pages (starts ! i)"
    using assms(2) by simp
  then show ?thesis
    using assms by simp
qed

lemma make_unit_Inr_take_drop:
  "make_unit lib file_path pages start = Inr unit \<longleftrightarrow>
     (\<exists>pdf_bytes.
        write_pdf lib (take 100 (drop start pages)) = Inr pdf_bytes
      \<and> unit = \<lparr> doc_type = ''document'',
                 doc_source = \<lparr> src_type = ''base64'', media_type = ''application/pdf'',
                                data = b64encode lib pdf_bytes \<rparr>,
                 title = basename file_path @ '' (pages '' @ str_nat (start + 1) @ ''-''
                           @ str_nat (min (start + 100) (length pages)) @ '')'',
                 citations_enabled = True \<rparr>)"
  by (simp add: make_unit_Inr window_take_drop)

lemma units_exist:
  "\<forall>start \<in> set starts. \<exists>unit. make_unit lib file_path pages start = Inr unit \<Longrightarrow>
   \<exists>units. map (make_unit lib file_path pages) starts = map Inr units"
proof (induction starts)
  case Nil
  then show ?case by simp
next
  case (Cons start rest)
  then obtain unit units where "make_unit lib file_path pages start = Inr unit"
    "map (make_unit lib file_path pages) rest = map Inr units"
    by auto
  then have "map (make_unit lib file_path pages) (start # rest) = map Inr (unit # units)"
    by simp
  then show ?case by blast
qed



text \<open>
  Claim C4. The document units that \<^verbatim>\<open>process_pdf\<close> returns partition the pages. For
  every page count \<open>N\<close> and every positive window size \<open>W\<close> (the code passes 100), the
  page ranges of the loop, concatenated in order, are exactly the indices
  \<open>0, \<dots>, N - 1\<close> in ascending order: no gap, no overlap, no page beyond \<open>N\<close>; each
  range is non-empty and holds at most \<open>W\<close> pages, each range but the last ends where
  the next one starts, and the lengths sum to \<open>N\<close>. And when \<^verbatim>\<open>process_pdf\<close> returns
  its units for a document of \<open>N\<close> pages, there is one unit per range, in that order:
  the unit holds the encoded PDF written from exactly the pages of its range, its title
  carries that range counted from 1, and the pages handed to the writer, unit after
  unit, are the pages of the document, each once and in order.
\<close>

theorem units_partition_pages:
  "(0 < W \<longrightarrow>
        concat (map (page_range W N) (chunk_starts W N)) = [0 ..< N]
      \<and> (\<forall>start \<in> set (chunk_starts W N).
            page_range W N start \<noteq> [] \<and> length (page_range W N start) \<le> W)
      \<and> (\<forall>i. Suc i < length (chunk_starts W N) \<longrightarrow>
            chunk_starts W N ! Suc i = min (chunk_starts W N ! i + W) N)
      \<and> sum_list (map (\<lambda>start. length (page_range W N start)) (chunk_starts W N)) = N)
   \<and> (fs file_path = Some bytes \<and> PdfReader lib bytes = Inr (pages, pos)
        \<and> process_pdf lib fs file_path = Inr (documents, content_hash) \<longrightarrow>
        length documents = length (chunk_starts 100 (length pages))
      \<and> (\<forall>i < length documents. \<exists>pdf_bytes.
            write_pdf lib (map (\<lambda>page. pages ! page)
                             (page_range 100 (length pages) (chunk_starts 100 (length pages) ! i)))
              = Inr pdf_bytes
          \<and> documents ! i =
              \<lparr> doc_type = ''document'',
                doc_source = \<lparr> src_type = ''base64'', media_type = ''application/pdf'',
                               data = b64encode lib pdf_bytes \<rparr>,
                title = basename file_path @ '' (pages ''
                          @ str_nat (chunk_starts 100 (length pages) ! i + 1) @ ''-''
                          @ str_nat (min (chunk_starts 100 (length pages) ! i + 100) (length pages))
                          @ '')'',
                citations_enabled = True \<rparr>)
      \<and> concat (map (\<lambda>start. map (\<lambda>page. pages ! page) (page_range 100 (length pages) start))
                   (chunk_starts 100 (length pages))) = pages)"
proof (intro conjI impI)
  assume "0 < W"
  from chunk_windows_partition [OF this, of N]
  show "concat (map (page_range W N) (chunk_starts W N)) = [0 ..< N]"
    and "\<forall>start \<in> set (chunk_starts W N).
            page_range W N start \<noteq> [] \<and> length (page_range W N start) \<le> W"
    and "\<forall>i. Suc i < length (chunk_starts W N) \<longrightarrow>
            chunk_starts W N ! Suc i = min (chunk_starts W N ! i + W) N"
    and "sum_list (map (\<lambda>start. length (page_range W N start)) (chunk_starts W N)) = N"
    by simp_all
next
  assume a: "fs file_path = Some bytes \<and> PdfReader lib bytes = Inr (pages, pos)
        \<and> process_pdf lib fs file_path = Inr (documents, content_hash)"
  then have m: "map (make_unit lib file_path pages) (chunk_starts 100 (length pages))
                  = map Inr documents"
    using process_pdf_Inr [where fs = fs and file_path = file_path and bytes = bytes
                             and lib = lib and pages = pages and pos = pos
                             and documents = documents and content_hash = content_hash]
    by blast
  show "length documents = length (chunk_starts 100 (length pages))"
    using m by (metis length_map)
  show "\<forall>i < length documents. \<exists>pdf_bytes.
            write_pdf lib (map (\<lambda>page. pages ! page)
                             (page_range 100 (length pages) (chunk_starts 100 (length pages) ! i)))
              = Inr pdf_bytes
          \<and> documents ! i =
              \<lparr> doc_type = ''document'',
                doc_source = \<lparr> src_type = ''base64'', media_type = ''application/pdf'',
                               data = b64encode lib pdf_bytes \<rparr>,
                title = basename file_path @ '' (pages ''
                          @ str_nat (chunk_starts 100 (length pages) ! i + 1) @ ''-''
                          @ str_nat (min (chunk_starts 100 (length pages) ! i + 100) (length pages))
                          @ '')'',
                citations_enabled = True \<rparr>"
  proof (intro allI impI)
    fix i assume "i < length documents"
    from units_nth [OF m this]
    have "make_unit lib file_path pages (chunk_starts 100 (length pages) ! i) = Inr (documents ! i)" .
    then show "\<exists>pdf_bytes.
            write_pdf lib (map (\<lambda>page. pages ! page)
                             (page_range 100 (length pages) (chunk_starts 100 (length pages) ! i)))
              = Inr pdf_bytes
          \<and> documents ! i =
              \<lparr> doc_type = ''document'',
                doc_source = \<lparr> src_type = ''base64'', media_type = ''application/pdf'',
                               data = b64encode lib pdf_bytes \<rparr>,
                title = basename file_path @ '' (pages ''
                          @ str_nat (chunk_starts 100 (length pages) ! i + 1) @ ''-''
                          @ str_nat (min (chunk_starts 100 (length pages) ! i + 100) (length pages))
                          @ '')'',
                citations_enabled = True \<rparr>"
      by (simp add: make_unit_Inr)
  qed
  show "concat (map (\<lambda>start. map (\<lambda>page. pages ! page) (page_range 100 (length pages) start))
                   (chunk_starts 100 (length pages))) = pages"
    by (rule units_cover_pages)
qed

theorem units_partition_pages_witness:
  "(0::nat) < 100
   \<and> chunk_starts 100 101 = [0, 100]
   \<and> map (page_range 100 101) (chunk_starts 100 101) = [[0 ..< 100], [100 ..< 101]]
   \<and> concat (map (page_range 100 101) (chunk_starts 100 101)) = [0 ..< 101]
   \<and> stub_fs ''documents/long.pdf'' = Some (7 # replicate 100 1 @ [2])
   \<and> PdfReader stub_lib (7 # replicate 100 1 @ [2]) = Inr (replicate 100 1 @ [2], 102)
   \<and> process_pdf stub_lib stub_fs ''documents/long.pdf''
       = Inr ([\<lparr> doc_type = ''document'',
                  doc_source = \<lparr> src_type = ''base64'', media_type = ''application/pdf'',
                                 data = replicate 100 CHR ''1'' \<rparr>,
                  title = ''long.pdf (pages 1-100)'', citations_enabled = True \<rparr>,
                \<lparr> doc_type = ''document'',
                  doc_source = \<lparr> src_type = ''base64'', media_type = ''application/pdf'',
                                 data = ''2'' \<rparr>,
                  title = ''long.pdf (pages 101-101)'', citations_enabled = True \<rparr>], ''0'')
   \<and> length [\<lparr> doc_type = ''document'',
                  doc_source = \<lparr> src_type = ''base64'', media_type = ''application/pdf'',
                                 data = replicate 100 CHR ''1'' \<rparr>,
                  title = ''long.pdf (pages 1-100)'', citations_enabled = True \<rparr>,
                \<lparr> doc_type = ''document'',
                  doc_source = \<lparr> src_type = ''base64'', media_type = ''application/pdf'',
                                 data = ''2'' \<rparr>,
                  title = ''long.pdf (pages 101-101)'', citations_enabled = True \<rparr>]
       = length (chunk_starts 100 (length (replicate 100 (1::byte) @ [2])))"
proof -
  have a: "stub_fs ''documents/long.pdf'' = Some (7 # replicate 100 1 @ [2])"
    by (simp add: stub_fs_def)
  have b: "PdfReader stub_lib (7 # replicate 100 1 @ [2]) = Inr (replicate 100 1 @ [2], 102)"
    by (simp add: stub_lib_def)
  let ?pages = "replicate 100 (1::byte) @ [2]"
  let ?documents =
    "[\<lparr> doc_type = ''document'',
        doc_source = \<lparr> src_type = ''base64'', media_type = ''application/pdf'',
                       data = replicate 100 CHR ''1'' \<rparr>,
        title = ''long.pdf (pages 1-100)'', citations_enabled = True \<rparr>,
      \<lparr> doc_type = ''document'',
        doc_source = \<lparr> src_type = ''base64'', media_type = ''application/pdf'',
                       data = ''2'' \<rparr>,
        title = ''long.pdf (pages 101-101)'', citations_enabled = True \<rparr>]"
  have c: "process_pdf stub_lib stub_fs ''documents/long.pdf'' = Inr (?documents, ''0'')"
    by (simp add: process_pdf_def stub_fs_def stub_lib_def make_unit_take_drop chunk_starts_101
          basename_def str_nat_values concat_replicate_single)
  have z: "(0::nat) < 100"
    by simp
  note T = units_partition_pages
            [where W = 100 and N = 101 and fs = stub_fs and file_path = "''documents/long.pdf''"
               and bytes = "7 # ?pages" and lib = stub_lib and pages = "?pages" and pos = 102
               and documents = "?documents" and content_hash = "''0''"]
  have cover: "concat (map (page_range 100 101) (chunk_starts 100 101)) = [0 ..< 101]"
    using T [THEN conjunct1, THEN mp, OF z, THEN conjunct1] .
  have units: "length ?documents = length (chunk_starts 100 (length ?pages))"
    using T [THEN conjunct2, THEN mp, OF conjI [OF a conjI [OF b c]], THEN conjunct1] .
  have ranges: "map (page_range 100 101) (chunk_starts 100 101) = [[0 ..< 100], [100 ..< 101]]"
    by (simp add: chunk_starts_101 page_range_def)
  show ?thesis
    by (intro conjI z chunk_starts_101 ranges cover a b c units)
qed

text \<open>
  Claim C9. For a file that exists and parses: a document of zero pages makes
  \<^verbatim>\<open>process_pdf\<close> succeed with the empty sequence of units and a fingerprint; when the
  writer succeeds on every window the function succeeds; and whenever it succeeds on a
  document of \<open>N\<close> pages, the number of units is \<open>\<lceil>N / 100\<rceil>\<close> and the fingerprint is
  the digest the function computed before the loop.
\<close>

theorem process_pdf_unit_count:
  assumes "fs file_path = Some bytes" and "PdfReader lib bytes = Inr (pages, pos)"
  shows "(pages = [] \<longrightarrow>
            process_pdf lib fs file_path = Inr ([], md5_hexdigest lib (drop pos bytes)))
       \<and> ((\<forall>start \<in> set (chunk_starts 100 (length pages)). \<exists>pdf_bytes.
              write_pdf lib (map (\<lambda>page. pages ! page) (page_range 100 (length pages) start))
                = Inr pdf_bytes) \<longrightarrow>
            (\<exists>documents. process_pdf lib fs file_path
                            = Inr (documents, md5_hexdigest lib (drop pos bytes))))
       \<and> (process_pdf lib fs file_path = Inr (documents, content_hash) \<longrightarrow>
            length documents = (length pages + 99) div 100
          \<and> content_hash = md5_hexdigest lib (drop pos bytes))"
proof (intro conjI impI)
  note iff = process_pdf_Inr [where fs = fs and file_path = file_path, OF assms]
  {
    assume "pages = []"
    then show "process_pdf lib fs file_path = Inr ([], md5_hexdigest lib (drop pos bytes))"
      by (simp add: iff chunk_starts_0)
  }
  {
    assume "\<forall>start \<in> set (chunk_starts 100 (length pages)). \<exists>pdf_bytes.
              write_pdf lib (map (\<lambda>page. pages ! page) (page_range 100 (length pages) start))
                = Inr pdf_bytes"
    then have "\<forall>start \<in> set (chunk_starts 100 (length pages)).
                 \<exists>unit. make_unit lib file_path pages start = Inr unit"
      by (simp add: make_unit_Inr)
    from units_exist [OF this] obtain units where
      "map (make_unit lib file_path pages) (chunk_starts 100 (length pages)) = map Inr units"
      by blast
    then have "process_pdf lib fs file_path = Inr (units, md5_hexdigest lib (drop pos bytes))"
      by (simp add: iff)
    then show "\<exists>documents. process_pdf lib fs file_path
                            = Inr (documents, md5_hexdigest lib (drop pos bytes))"
      by blast
  }
  {
    assume "process_pdf lib fs file_path = Inr (documents, content_hash)"
    then have m: "map (make_unit lib file_path pages) (chunk_starts 100 (length pages))
                    = map Inr documents"
      and h: "content_hash = md5_hexdigest lib (drop pos bytes)"
      by (simp_all add: iff)
    have "length documents = length (chunk_starts 100 (length pages))"
      using m by (metis length_map)
    then show "length documents = (length pages + 99) div 100"
      by (simp add: length_chunk_starts)
    show "content_hash = md5_hexdigest lib (drop pos bytes)"
      by (rule h)
  }
qed

theorem process_pdf_unit_count_witness:
  "stub_fs ''documents/empty.pdf'' = Some [7]
   \<and> PdfReader stub_lib [7] = Inr ([], 1)
   \<and> process_pdf stub_lib stub_fs ''documents/empty.pdf'' = Inr ([], ''0'')
   \<and> stub_fs ''documents/a.pdf'' = Some [7, 1]
   \<and> PdfReader stub_lib [7, 1] = Inr ([1], 2)
   \<and> write_pdf stub_lib [1] = Inr [1]
   \<and> process_pdf stub_lib stub_fs ''documents/a.pdf''
       = Inr ([\<lparr> doc_type = ''document'',
                  doc_source = \<lparr> src_type = ''base64'', media_type = ''application/pdf'',
                                 data = ''1'' \<rparr>,
                  title = ''a.pdf (pages 1-1)'', citations_enabled = True \<rparr>], ''0'')
   \<and> length [\<lparr> doc_type = ''document'',
                  doc_source = \<lparr> src_type = ''base64'', media_type = ''application/pdf'',
                                 data = ''1'' \<rparr>,
                  title = ''a.pdf (pages 1-1)'', citations_enabled = True \<rparr>]
       = (length [1::byte] + 99) div 100
   \<and> (\<exists>documents. process_pdf stub_lib stub_fs ''documents/a.pdf''
                      = Inr (documents, md5_hexdigest stub_lib (drop 2 [7, 1])))"
proof -
  have a: "stub_fs ''documents/empty.pdf'' = Some [7]" "stub_fs ''documents/a.pdf'' = Some [7, 1]"
    by (simp_all add: stub_fs_def)
  have b: "PdfReader stub_lib [7] = Inr ([], 1)" "PdfReader stub_lib [7, 1] = Inr ([1], 2)"
    "write_pdf stub_lib [1] = Inr [1]"
    by (simp_all add: stub_lib_def)
  let ?unit =
    "\<lparr> doc_type = ''document'',
       doc_source = \<lparr> src_type = ''base64'', media_type = ''application/pdf'',
                      data = ''1'' \<rparr>,
       title = ''a.pdf (pages 1-1)'', citations_enabled = True \<rparr>"
  have c: "process_pdf stub_lib stub_fs ''documents/a.pdf'' = Inr ([?unit], ''0'')"
    by (simp add: process_pdf_def stub_fs_def stub_lib_def make_unit_take_drop chunk_starts_single
          basename_def str_nat_values)
  have m: "md5_hexdigest stub_lib (drop 1 [7]) = ''0''"
    by (simp add: stub_lib_def str_nat_values)
  note T0 = process_pdf_unit_count
            [where fs = stub_fs and file_path = "''documents/empty.pdf''" and bytes = "[7]"
               and lib = stub_lib and pages = "[]" and pos = 1, OF a(1) b(1)]
  note T1 = process_pdf_unit_count
            [where fs = stub_fs and file_path = "''documents/a.pdf''" and bytes = "[7, 1]"
               and lib = stub_lib and pages = "[1]" and pos = 2
               and documents = "[?unit]" and content_hash = "''0''", OF a(2) b(2)]
  have e: "process_pdf stub_lib stub_fs ''documents/empty.pdf'' = Inr ([], ''0'')"
    using T0 [THEN conjunct1, THEN mp, OF refl] by (simp only: m)
  have l: "length [?unit] = (length [1::byte] + 99) div 100"
    using T1 [THEN conjunct2, THEN conjunct2, THEN mp, OF c, THEN conjunct1] .
  have w: "\<forall>start \<in> set (chunk_starts 100 (length [1::byte])). \<exists>pdf_bytes.
             write_pdf stub_lib (map (\<lambda>page. [1::byte] ! page) (page_range 100 (length [1::byte]) start))
               = Inr pdf_bytes"
    by (simp add: chunk_starts_single page_range_def stub_lib_def)
  have s: "\<exists>documents. process_pdf stub_lib stub_fs ''documents/a.pdf''
                      = Inr (documents, md5_hexdigest stub_lib (drop 2 [7, 1]))"
    using T1 [THEN conjunct2, THEN conjunct1, THEN mp, OF w] .
  show ?thesis
    by (intro conjI a b e c l s)
qed

text \<open>
  Claim C8. For a document of 250 pages, \<^verbatim>\<open>process_pdf\<close> returns its units exactly when
  the writer succeeds on the three windows (pages 1 to 100, 101 to 200 and 201 to 250),
  and then the units are exactly three: each holds the encoded bytes of its window, and
  the titles are the base name of the file followed by the page ranges 1-100, 101-200
  and 201-250. For the question "What is the thesis?" with no prior turn (the transcript
  holds only the turn of the question itself) the request is a single user message whose
  content is the units followed by one text block with the question.
\<close>

theorem thesis_scenario:
  assumes "fs file_path = Some bytes" and "PdfReader lib bytes = Inr (pages, pos)"
      and "length pages = 250"
  shows "(process_pdf lib fs file_path = Inr (documents, content_hash) \<longleftrightarrow>
           (\<exists>bytes1 bytes2 bytes3.
               write_pdf lib (take 100 pages) = Inr bytes1
             \<and> write_pdf lib (take 100 (drop 100 pages)) = Inr bytes2
             \<and> write_pdf lib (drop 200 pages) = Inr bytes3
             \<and> documents =
                 [\<lparr> doc_type = ''document'',
                    doc_source = \<lparr> src_type = ''base64'', media_type = ''application/pdf'',
                                   data = b64encode lib bytes1 \<rparr>,
                    title = basename file_path @ '' (pages 1-100)'',
                    citations_enabled = True \<rparr>,
                  \<lparr> doc_type = ''document'',
                    doc_source = \<lparr> src_type = ''base64'', media_type = ''application/pdf'',
                                   data = b64encode lib bytes2 \<rparr>,
                    title = basename file_path @ '' (pages 101-200)'',
                    citations_enabled = True \<rparr>,
                  \<lparr> doc_type = ''document'',
                    doc_source = \<lparr> src_type = ''base64'', media_type = ''application/pdf'',
                                   data = b64encode lib bytes3 \<rparr>,
                    title = basename file_path @ '' (pages 201-250)'',
                    citations_enabled = True \<rparr>]
             \<and> content_hash = md5_hexdigest lib (drop pos bytes)))
       \<and> (process_pdf lib fs file_path = Inr (documents, content_hash) \<longrightarrow>
            length documents = 3
          \<and> map title documents =
              [basename file_path @ '' (pages 1-100)'',
               basename file_path @ '' (pages 101-200)'',
               basename file_path @ '' (pages 201-250)''])
       \<and> build_messages documents ''What is the thesis?''
            [\<lparr> role = ''user'', content = ''What is the thesis?'', citations = [] \<rparr>]
           = [\<lparr> msg_role = ''user'',
                 msg_content = map DocumentBlock documents
                               @ [TextBlock ''What is the thesis?''] \<rparr>]"
proof -
  have d: "take 100 (drop 200 pages) = drop 200 pages"
    using assms(3) by simp
  have iff: "process_pdf lib fs file_path = Inr (documents, content_hash) \<longleftrightarrow>
           (\<exists>bytes1 bytes2 bytes3.
               write_pdf lib (take 100 pages) = Inr bytes1
             \<and> write_pdf lib (take 100 (drop 100 pages)) = Inr bytes2
             \<and> write_pdf lib (drop 200 pages) = Inr bytes3
             \<and> documents =
                 [\<lparr> doc_type = ''document'',
                    doc_source = \<lparr> src_type = ''base64'', media_type = ''application/pdf'',
                                   data = b64encode lib bytes1 \<rparr>,
                    title = basename file_path @ '' (pages 1-100)'',
                    citations_enabled = True \<rparr>,
                  \<lparr> doc_type = ''document'',
                    doc_source = \<lparr> src_type = ''base64'', media_type = ''application/pdf'',
                                   data = b64encode lib bytes2 \<rparr>,
                    title = basename file_path @ '' (pages 101-200)'',
                    citations_enabled = True \<rparr>,
                  \<lparr> doc_type = ''document'',
                    doc_source = \<lparr> src_type = ''base64'', media_type = ''application/pdf'',
                                   data = b64encode lib bytes3 \<rparr>,
                    title = basename file_path @ '' (pages 201-250)'',
                    citations_enabled = True \<rparr>]
             \<and> content_hash = md5_hexdigest lib (drop pos bytes))"
    unfolding process_pdf_Inr [where fs = fs and file_path = file_path, OF assms(1,2)]
    using assms(3)
    by (auto simp: chunk_starts_250 Cons_eq_map_conv make_unit_Inr_take_drop d str_nat_values)
  have t: "process_pdf lib fs file_path = Inr (documents, content_hash) \<longrightarrow>
            length documents = 3
          \<and> map title documents =
              [basename file_path @ '' (pages 1-100)'',
               basename file_path @ '' (pages 101-200)'',
               basename file_path @ '' (pages 201-250)'']"
    unfolding iff by auto
  have b: "build_messages documents ''What is the thesis?''
            [\<lparr> role = ''user'', content = ''What is the thesis?'', citations = [] \<rparr>]
           = [\<lparr> msg_role = ''user'',
                 msg_content = map DocumentBlock documents
                               @ [TextBlock ''What is the thesis?''] \<rparr>]"
    by (simp add: build_messages_def)
  show ?thesis
    by (intro conjI iff t b)
qed

theorem thesis_scenario_witness:
  "stub_fs ''documents/thesis.pdf'' = Some (7 # replicate 100 1 @ replicate 100 2 @ replicate 50 3)
   \<and> PdfReader stub_lib (7 # replicate 100 1 @ replicate 100 2 @ replicate 50 3)
       = Inr (replicate 100 1 @ replicate 100 2 @ replicate 50 3, 251)
   \<and> length (replicate 100 (1::byte) @ replicate 100 2 @ replicate 50 3) = 250
   \<and> process_pdf stub_lib stub_fs ''documents/thesis.pdf''
       = Inr ([\<lparr> doc_type = ''document'',
                  doc_source = \<lparr> src_type = ''base64'', media_type = ''application/pdf'',
                                 data = replicate 100 CHR ''1'' \<rparr>,
                  title = ''thesis.pdf (pages 1-100)'', citations_enabled = True \<rparr>,
                \<lparr> doc_type = ''document'',
                  doc_source = \<lparr> src_type = ''base64'', media_type = ''application/pdf'',
                                 data = replicate 100 CHR ''2'' \<rparr>,
                  title = ''thesis.pdf (pages 101-200)'', citations_enabled = True \<rparr>,
                \<lparr> doc_type = ''document'',
                  doc_source = \<lparr> src_type = ''base64'', media_type = ''application/pdf'',
                                 data = replicate 50 CHR ''3'' \<rparr>,
                  title = ''thesis.pdf (pages 201-250)'', citations_enabled = True \<rparr>], ''0'')"
proof -
  let ?pages = "replicate 100 (1::byte) @ replicate 100 2 @ replicate 50 3"
  have a: "stub_fs ''documents/thesis.pdf'' = Some (7 # ?pages)"
    by (simp add: stub_fs_def)
  have b: "PdfReader stub_lib (7 # ?pages) = Inr (?pages, 251)"
    by (simp add: stub_lib_def)
  have c: "length ?pages = 250"
    by simp
  have n: "basename ''documents/thesis.pdf'' = ''thesis.pdf''"
    by (simp add: basename_def)
  have w: "write_pdf stub_lib (take 100 ?pages) = Inr (replicate 100 1)"
    "write_pdf stub_lib (take 100 (drop 100 ?pages)) = Inr (replicate 100 2)"
    "write_pdf stub_lib (drop 200 ?pages) = Inr (replicate 50 3)"
    by (simp_all add: stub_lib_def)
  have e: "b64encode stub_lib (replicate 100 1) = replicate 100 CHR ''1''"
    "b64encode stub_lib (replicate 100 2) = replicate 100 CHR ''2''"
    "b64encode stub_lib (replicate 50 3) = replicate 50 CHR ''3''"
    "md5_hexdigest stub_lib [] = ''0''"
    by (simp_all add: stub_lib_def str_nat_values concat_replicate_single)
  let ?documents =
    "[\<lparr> doc_type = ''document'',
        doc_source = \<lparr> src_type = ''base64'', media_type = ''application/pdf'',
                       data = replicate 100 CHR ''1'' \<rparr>,
        title = ''thesis.pdf (pages 1-100)'', citations_enabled = True \<rparr>,
      \<lparr> doc_type = ''document'',
        doc_source = \<lparr> src_type = ''base64'', media_type = ''application/pdf'',
                       data = replicate 100 CHR ''2'' \<rparr>,
        title = ''thesis.pdf (pages 101-200)'', citations_enabled = True \<rparr>,
      \<lparr> doc_type = ''document'',
        doc_source = \<lparr> src_type = ''base64'', media_type = ''application/pdf'',
                       data = replicate 50 CHR ''3'' \<rparr>,
        title = ''thesis.pdf (pages 201-250)'', citations_enabled = True \<rparr>]"
  note T = thesis_scenario
            [where fs = stub_fs and file_path = "''documents/thesis.pdf''"
               and bytes = "7 # ?pages" and lib = stub_lib and pages = "?pages" and pos = 251
               and documents = "?documents" and content_hash = "''0''", OF a b c]
  have r: "process_pdf stub_lib stub_fs ''documents/thesis.pdf'' = Inr (?documents, ''0'')"
    unfolding T [THEN conjunct1] w by (simp add: n e)
  show ?thesis
    by (intro conjI a b c r)
qed




section \<open>Properties of the assembler\<close>

subsection \<open>Message assembly and normalisation\<close>

lemma py_strip_empty: "py_strip s = [] \<longleftrightarrow> whitespace_only s"
proof (cases "dropWhile py_isspace s")
  case Nil
  then have "whitespace_only s"
    by (simp add: whitespace_only_def dropWhile_eq_Nil_conv list_all_iff)
  moreover have "py_strip s = []"
    unfolding py_strip_def Nil by simp
  ultimately show ?thesis by simp
next
  case (Cons c cs)
  then have c: "\<not> py_isspace c"
    by (metis hd_dropWhile list.distinct(1) list.sel(1))
  have "c \<in> set (rev (dropWhile py_isspace s))"
    using Cons by simp
  then have "dropWhile py_isspace (rev (dropWhile py_isspace s)) \<noteq> []"
    using c by (metis dropWhile_eq_Nil_conv)
  then have "py_strip s \<noteq> []"
    by (simp add: py_strip_def)
  moreover have "\<not> whitespace_only s"
    using Cons by (simp add: whitespace_only_def list_all_iff flip: dropWhile_eq_Nil_conv)
  ultimately show ?thesis by simp
qed

lemma build_messages_eq:
  "build_messages documents prompt session_messages =
     \<lparr> msg_role = ''user'', msg_content = map DocumentBlock documents @ [TextBlock prompt] \<rparr>
     # map history_message
         (filter (\<lambda>msg. \<not> whitespace_only (content msg)) (butlast session_messages))"
  by (simp add: build_messages_def Let_def py_strip_empty)

text \<open>
  In the running application the transcript starts with the greeting, so the first
  request already carries two messages: the question with the documents, and then the
  greeting.
\<close>

lemma first_request_of_the_application:
  "build_messages documents prompt (initial_messages @ [user_turn prompt]) =
     [\<lparr> msg_role = ''user'', msg_content = map DocumentBlock documents @ [TextBlock prompt] \<rparr>,
      \<lparr> msg_role = ''assistant'',
        msg_content = [TextBlock ''Ask me anything about the document!''] \<rparr>]"
  by (simp add: build_messages_eq initial_messages_def history_message_def
        whitespace_only_def py_isspace_def)

lemma no_document_in_history:
  "filter is_document (concat (map msg_content (map history_message turns))) = []"
  by (induction turns) (simp_all add: history_message_def)

lemma documents_filter: "filter is_document (map DocumentBlock documents) = map DocumentBlock documents"
  by (induction documents) simp_all

text \<open>
  Claim C5. For every list of prior turns and every prompt, the request is one user
  message holding the documents followed by the prompt's text block, and then one
  message per prior turn whose text is not whitespace-only (the empty text included),
  in order, each a single text block. So no message comes from a blank turn, and the
  document blocks of the whole request are exactly the documents, once, all of them in
  the first message, whatever the length of the history.
\<close>
theorem build_messages_law:
  "build_messages documents prompt (prior @ [current]) =
     \<lparr> msg_role = ''user'', msg_content = map DocumentBlock documents @ [TextBlock prompt] \<rparr>
     # map history_message (filter (\<lambda>msg. \<not> whitespace_only (content msg)) prior)
   \<and> (\<forall>m \<in> set (tl (build_messages documents prompt (prior @ [current]))).
         \<exists>msg \<in> set prior. \<not> whitespace_only (content msg)
            \<and> m = \<lparr> msg_role = role msg, msg_content = [TextBlock (content msg)] \<rparr>)
   \<and> filter is_document
         (concat (map msg_content (build_messages documents prompt (prior @ [current]))))
       = map DocumentBlock documents
   \<and> filter is_document
         (concat (map msg_content (tl (build_messages documents prompt (prior @ [current])))))
       = []"
  by (auto simp: build_messages_eq no_document_in_history documents_filter history_message_def)

theorem build_messages_law_witness:
  "build_messages [] ''And then?'' (initial_messages @ [blank_turn, user_turn ''Why?''] @ [user_turn ''And then?''])
     = [\<lparr> msg_role = ''user'', msg_content = [TextBlock ''And then?''] \<rparr>,
        \<lparr> msg_role = ''assistant'', msg_content = [TextBlock ''Ask me anything about the document!''] \<rparr>,
        \<lparr> msg_role = ''user'', msg_content = [TextBlock ''Why?''] \<rparr>]"
proof -
  have "whitespace_only (content blank_turn)"
    by (simp add: whitespace_only_def blank_turn_def py_isspace_def)
  moreover have "\<not> whitespace_only ''Why?''" "\<not> whitespace_only ''Ask me anything about the document!''"
    by (simp_all add: whitespace_only_def py_isspace_def)
  ultimately show ?thesis
    using build_messages_law [of "[]" "''And then?''" "initial_messages @ [blank_turn, user_turn ''Why?'']" "user_turn ''And then?''"]
    by (simp add: initial_messages_def user_turn_def history_message_def)
qed

lemma extract_citations_eq:
  "extract_citations x = map normalize_cite (case x of Present (Some cs) \<Rightarrow> cs | _ \<Rightarrow> [])"
  by (cases x rule: extract_citations.cases) simp_all

lemma process_blocks_citations:
  "process_blocks blocks cites full_response = Inr (cites', full_response') \<Longrightarrow>
   cites' = cites @ map normalize_cite (concat (map visited_annotations blocks))"
proof (induction blocks arbitrary: cites full_response)
  case Nil
  then show ?case by simp
next
  case (Cons b blocks)
  show ?case
  proof (cases "cb_type b = ''text''")
    case True
    then obtain t where t: "cb_text b = Present t"
      using Cons.prems by (cases "cb_text b") simp_all
    have "process_blocks blocks (cites @ extract_citations (cb_citations b)) (full_response @ t)
            = Inr (cites', full_response')"
      using Cons.prems True t by simp
    from Cons.IH [OF this] show ?thesis
      using True by (simp add: visited_annotations_def extract_citations_eq)
  next
    case False
    then have "process_blocks blocks cites full_response = Inr (cites', full_response')"
      using Cons.prems by simp
    from Cons.IH [OF this] show ?thesis
      using False by (simp add: visited_annotations_def)
  qed
qed

lemma normalize_citations:
  "normalize blocks = Inr (cites, full_response) \<Longrightarrow>
   cites = map normalize_cite (concat (map visited_annotations blocks))"
  using process_blocks_citations [of blocks "[]" "[]" cites full_response]
  by (simp add: normalize_def)



lemma cite_text_normalize_cite:
  "cite_text (normalize_cite cite) = take 150 (getattr_default (cited_text cite) []) @ ''...''"
  by (simp add: normalize_cite_def)

lemma long_excerpt_truncated:
  "cited_text cite = Present excerpt \<Longrightarrow> 150 < length excerpt \<Longrightarrow>
   cite_text (normalize_cite cite) = take 150 excerpt @ ''...''
   \<and> length (cite_text (normalize_cite cite)) = 153"
  by (simp add: normalize_cite_def)

lemma short_excerpt_marked:
  "cited_text cite = Present excerpt \<Longrightarrow> length excerpt \<le> 150 \<Longrightarrow>
   cite_text (normalize_cite cite) = excerpt @ ''...''"
  by (simp add: normalize_cite_def)

text \<open>
  Claim C1. An excerpt longer than 150 code points is stored as its first 150 code
  points followed by the ellipsis (\<open>long_excerpt_truncated\<close>), as the claim says. An
  excerpt of at most 150 code points should be stored unchanged; the code appends the
  ellipsis to it all the same (\<open>short_excerpt_marked\<close>). Here the reply holds one text
  block with one citation whose excerpt is \<^verbatim>\<open>abc\<close>: the stored text is \<^verbatim>\<open>abc...\<close>.
\<close>
theorem short_excerpt_gets_ellipsis:
  "normalize [text_block ''It is 42.'' [bare_annotation]]
     = Inr ([\<lparr> cite_document = Some ''Unknown Document'', start_page = 0, end_page = 0,
               cite_text = ''abc...'' \<rparr>], ''It is 42.'')"
  by (simp add: normalize_def text_block_def bare_annotation_def normalize_cite_def)

text \<open>
  Claim C6. The citations that normalisation returns are the images of the annotations
  the loop visits, in order; for each of them a missing document title gives the title
  \<^verbatim>\<open>Unknown Document\<close>, a missing start page gives start page 0 and a missing end page
  gives end page 0.
\<close>
theorem missing_fields_default:
  assumes "normalize blocks = Inr (cites, full_response)"
  shows "cites = map normalize_cite (concat (map visited_annotations blocks))
       \<and> (\<forall>cite \<in> set (concat (map visited_annotations blocks)).
            (document_title cite = Missing \<longrightarrow>
               cite_document (normalize_cite cite) = Some ''Unknown Document'')
          \<and> (start_page_number cite = Missing \<longrightarrow> start_page (normalize_cite cite) = 0)
          \<and> (end_page_number cite = Missing \<longrightarrow> end_page (normalize_cite cite) = 0))"
  using normalize_citations [OF assms] by (simp add: normalize_cite_def)

theorem missing_fields_default_witness:
  "normalize [text_block ''It is 42.'' [bare_annotation]]
      = Inr ([normalize_cite bare_annotation], ''It is 42.'')
   \<and> document_title bare_annotation = Missing
   \<and> start_page_number bare_annotation = Missing
   \<and> end_page_number bare_annotation = Missing
   \<and> cite_document (normalize_cite bare_annotation) = Some ''Unknown Document''
   \<and> start_page (normalize_cite bare_annotation) = 0
   \<and> end_page (normalize_cite bare_annotation) = 0"
proof -
  have n: "normalize [text_block ''It is 42.'' [bare_annotation]]
      = Inr ([normalize_cite bare_annotation], ''It is 42.'')"
    by (simp add: normalize_def text_block_def)
  have m: "document_title bare_annotation = Missing" "start_page_number bare_annotation = Missing"
    "end_page_number bare_annotation = Missing"
    by (simp_all add: bare_annotation_def)
  show ?thesis
    using missing_fields_default [OF n] n m
    by (simp add: visited_annotations_def text_block_def)
qed

subsection \<open>The exchange\<close>

lemma messages_emit: "messages (emit events st) = messages st"
  by (simp add: emit_def)

lemma ui_emit: "ui (emit events st) = ui st @ events"
  by (simp add: emit_def)

lemma messages_begin_exchange:
  "messages (begin_exchange prompt st) = messages st @ [user_turn prompt]"
  by (simp add: begin_exchange_def emit_def)

lemma ui_begin_exchange:
  "ui (begin_exchange prompt st) = ui st @ [(''user'', Markdown prompt)]"
  by (simp add: begin_exchange_def emit_def)

lemma try_block_failure:
  "try_block create documents debug_mode prompt st = (Inl e, st') \<Longrightarrow>
   messages st' = messages st"
  by (auto simp: try_block_def Let_def emit_def
           split: sum.splits option.splits attr.splits prod.splits if_splits)


lemma try_block_no_result:
  "create (build_messages documents prompt (messages st)) = Inr None \<Longrightarrow>
   try_block create documents debug_mode prompt st =
     (Inl (ValueError ''Empty API response - no data received''),
      if debug_mode
      then emit [(''assistant'', Subheader ''Debug Information''),
                 (''assistant'', JsonRequest (build_messages documents prompt (messages st)))] st
      else st)"
  by (simp add: try_block_def Let_def)

lemma try_block_no_content:
  "create (build_messages documents prompt (messages st)) = Inr (Some response) \<Longrightarrow>
   resp_content response = Missing \<Longrightarrow>
   try_block create documents debug_mode prompt st =
     (Inl (ValueError ''Malformed API response - missing content field''),
      if debug_mode
      then emit [(''assistant'', Subheader ''Debug Information''),
                 (''assistant'', JsonRequest (build_messages documents prompt (messages st)))] st
      else st)"
  by (simp add: try_block_def Let_def)

lemma handler_pops:
  "messages st \<noteq> [] \<Longrightarrow>
   handler debug_mode e st =
     (Inl e, st\<lparr> ui := ui st @ (''page'', ErrorBox e)
                            # (if debug_mode then [(''page'', TracebackCode e)] else []),
                 messages := butlast (messages st) \<rparr>)"
  by (cases "messages st") (simp_all add: handler_def emit_def Let_def)

lemma exchange_failure:
  assumes "try_block create documents debug_mode prompt (begin_exchange prompt st) = (Inl e, st1)"
  shows "exchange create documents debug_mode prompt st =
           (Inl e, st1\<lparr> ui := ui st1 @ (''page'', ErrorBox e)
                            # (if debug_mode then [(''page'', TracebackCode e)] else []),
                        messages := messages st \<rparr>)"
proof -
  have m: "messages st1 = messages st @ [user_turn prompt]"
    using try_block_failure [OF assms] by (simp add: messages_begin_exchange)
  then have "messages st1 \<noteq> []" by simp
  from handler_pops [OF this] show ?thesis
    using assms m by (simp add: exchange_def)
qed

lemma exchange_success:
  assumes "try_block create documents debug_mode prompt (begin_exchange prompt st) = (Inr u, st1)"
  shows "exchange create documents debug_mode prompt st = (Inr u, st1)"
  using assms by (simp add: exchange_def)

text \<open>
  Claim C3. When an exchange ends with an exception caught by the handler (raised by
  the remote call, by the validation of the reply or by its normalisation, all of which
  run after the user's turn was appended), the transcript after the exchange equals the
  transcript before the user's turn was appended: same turns, same order, same count.
\<close>
theorem failed_exchange_rolls_back:
  assumes "exchange create documents debug_mode prompt st = (Inl e, st')"
  shows "messages st' = messages st \<and> length (messages st') = length (messages st)"
proof (cases "try_block create documents debug_mode prompt (begin_exchange prompt st)")
  case (Pair r st1)
  show ?thesis
  proof (cases r)
    case (Inl e1)
    from exchange_failure [OF Pair [unfolded Inl]] assms show ?thesis by auto
  next
    case (Inr u)
    from exchange_success [OF Pair [unfolded Inr]] assms show ?thesis by simp
  qed
qed

theorem failed_exchange_rolls_back_witness:
  "exchange failing_client [] False ''hi'' fresh_session
     = (Inl (APIError ''Connection error.''),
        \<lparr> messages = initial_messages,
          ui = [(''user'', Markdown ''hi''), (''page'', ErrorBox (APIError ''Connection error.''))] \<rparr>)
   \<and> exchange textless_client [] False ''hi'' fresh_session
     = (Inl (AttributeError ''text''),
        \<lparr> messages = initial_messages,
          ui = [(''user'', Markdown ''hi''), (''page'', ErrorBox (AttributeError ''text''))] \<rparr>)
   \<and> messages fresh_session = initial_messages"
proof -
  have a: "exchange failing_client [] False ''hi'' fresh_session
     = (Inl (APIError ''Connection error.''),
        \<lparr> messages = initial_messages,
          ui = [(''user'', Markdown ''hi''), (''page'', ErrorBox (APIError ''Connection error.''))] \<rparr>)"
    by (simp add: exchange_def try_block_def begin_exchange_def emit_def handler_def
          failing_client_def fresh_session_def initial_messages_def Let_def)
  have b: "exchange textless_client [] False ''hi'' fresh_session
     = (Inl (AttributeError ''text''),
        \<lparr> messages = initial_messages,
          ui = [(''user'', Markdown ''hi''), (''page'', ErrorBox (AttributeError ''text''))] \<rparr>)"
    by (simp add: exchange_def try_block_def begin_exchange_def emit_def handler_def
          textless_client_def fresh_session_def initial_messages_def Let_def normalize_def)
  show ?thesis
    using failed_exchange_rolls_back [OF a] failed_exchange_rolls_back [OF b] a b
    by (simp add: fresh_session_def)
qed



text \<open>
  Claim C7 fails as it is stated, on the order of the effects. The user's turn is
  appended and the prompt is shown before the remote call. When the
  boundary then returns no result, the exception is raised in a session whose transcript
  already holds the new turn and whose page already shows the prompt; after the handler
  the page also shows the error.
\<close>
theorem empty_response_raised_after_mutation:
  "try_block no_result_client [] False ''hi'' (begin_exchange ''hi'' fresh_session)
     = (Inl (ValueError ''Empty API response - no data received''),
        \<lparr> messages = initial_messages @ [user_turn ''hi''],
          ui = [(''user'', Markdown ''hi'')] \<rparr>)
   \<and> messages (begin_exchange ''hi'' fresh_session) \<noteq> messages fresh_session
   \<and> ui (begin_exchange ''hi'' fresh_session) \<noteq> ui fresh_session
   \<and> ui (snd (exchange no_result_client [] False ''hi'' fresh_session))
       = [(''user'', Markdown ''hi''),
          (''page'', ErrorBox (ValueError ''Empty API response - no data received''))]"
  by (simp add: exchange_def try_block_def begin_exchange_def emit_def handler_def
        no_result_client_def fresh_session_def initial_messages_def Let_def)

text \<open>
  Claim C7, as the code has it. When the remote call returns no result object the
  exchange fails with \<^verbatim>\<open>ValueError("Empty API response - no data received")\<close>; when the
  result has no content attribute it fails with
  \<^verbatim>\<open>ValueError("Malformed API response - missing content field")\<close>. In both cases the
  exchange is aborted before the reply is rendered and before an assistant turn is
  appended: the page gains only the prompt (shown before the call), the request dump of
  debug mode, and the error with its traceback in debug mode; and the user's turn,
  appended before the call, is popped by the handler, so the transcript ends as it was.
\<close>

theorem response_validation_aborts:
  "(create (build_messages documents prompt (messages st @ [user_turn prompt])) = Inr None \<longrightarrow>
      fst (exchange create documents debug_mode prompt st)
        = Inl (ValueError ''Empty API response - no data received'')
    \<and> messages (snd (exchange create documents debug_mode prompt st)) = messages st
    \<and> ui (snd (exchange create documents debug_mode prompt st))
        = ui st @ [(''user'', Markdown prompt)]
          @ (if debug_mode
             then [(''assistant'', Subheader ''Debug Information''),
                   (''assistant'', JsonRequest
                      (build_messages documents prompt (messages st @ [user_turn prompt])))]
             else [])
          @ [(''page'', ErrorBox (ValueError ''Empty API response - no data received''))]
          @ (if debug_mode
             then [(''page'', TracebackCode (ValueError ''Empty API response - no data received''))]
             else []))
   \<and> (create (build_messages documents prompt (messages st @ [user_turn prompt]))
         = Inr (Some response) \<and> resp_content response = Missing \<longrightarrow>
      fst (exchange create documents debug_mode prompt st)
        = Inl (ValueError ''Malformed API response - missing content field'')
    \<and> messages (snd (exchange create documents debug_mode prompt st)) = messages st
    \<and> ui (snd (exchange create documents debug_mode prompt st))
        = ui st @ [(''user'', Markdown prompt)]
          @ (if debug_mode
             then [(''assistant'', Subheader ''Debug Information''),
                   (''assistant'', JsonRequest
                      (build_messages documents prompt (messages st @ [user_turn prompt])))]
             else [])
          @ [(''page'', ErrorBox (ValueError ''Malformed API response - missing content field''))]
          @ (if debug_mode
             then [(''page'', TracebackCode
                      (ValueError ''Malformed API response - missing content field''))]
             else []))"
proof (intro conjI impI)
  let ?request = "build_messages documents prompt (messages st @ [user_turn prompt])"
  let ?st1 = "if debug_mode
              then emit [(''assistant'', Subheader ''Debug Information''),
                         (''assistant'', JsonRequest ?request)] (begin_exchange prompt st)
              else begin_exchange prompt st"
  {
    assume "create ?request = Inr None"
    then have "try_block create documents debug_mode prompt (begin_exchange prompt st)
                 = (Inl (ValueError ''Empty API response - no data received''), ?st1)"
      by (simp add: try_block_no_result messages_begin_exchange)
    note r = exchange_failure [OF this]
    show "fst (exchange create documents debug_mode prompt st)
            = Inl (ValueError ''Empty API response - no data received'')"
      by (simp add: r)
    show "messages (snd (exchange create documents debug_mode prompt st)) = messages st"
      by (simp add: r)
    show "ui (snd (exchange create documents debug_mode prompt st))
        = ui st @ [(''user'', Markdown prompt)]
          @ (if debug_mode
             then [(''assistant'', Subheader ''Debug Information''),
                   (''assistant'', JsonRequest ?request)]
             else [])
          @ [(''page'', ErrorBox (ValueError ''Empty API response - no data received''))]
          @ (if debug_mode
             then [(''page'', TracebackCode (ValueError ''Empty API response - no data received''))]
             else [])"
      by (simp add: r ui_emit ui_begin_exchange)
  }
  {
    assume "create ?request = Inr (Some response) \<and> resp_content response = Missing"
    then have "try_block create documents debug_mode prompt (begin_exchange prompt st)
                 = (Inl (ValueError ''Malformed API response - missing content field''), ?st1)"
      by (simp add: try_block_no_content messages_begin_exchange)
    note r = exchange_failure [OF this]
    show "fst (exchange create documents debug_mode prompt st)
            = Inl (ValueError ''Malformed API response - missing content field'')"
      by (simp add: r)
    show "messages (snd (exchange create documents debug_mode prompt st)) = messages st"
      by (simp add: r)
    show "ui (snd (exchange create documents debug_mode prompt st))
        = ui st @ [(''user'', Markdown prompt)]
          @ (if debug_mode
             then [(''assistant'', Subheader ''Debug Information''),
                   (''assistant'', JsonRequest ?request)]
             else [])
          @ [(''page'', ErrorBox (ValueError ''Malformed API response - missing content field''))]
          @ (if debug_mode
             then [(''page'', TracebackCode
                      (ValueError ''Malformed API response - missing content field''))]
             else [])"
      by (simp add: r ui_emit ui_begin_exchange)
  }
qed

theorem response_validation_aborts_witness:
  "no_result_client (build_messages [] ''hi'' (messages fresh_session @ [user_turn ''hi''])) = Inr None
   \<and> exchange no_result_client [] False ''hi'' fresh_session
       = (Inl (ValueError ''Empty API response - no data received''),
          \<lparr> messages = initial_messages,
            ui = [(''user'', Markdown ''hi''),
                  (''page'', ErrorBox (ValueError ''Empty API response - no data received''))] \<rparr>)
   \<and> no_content_client (build_messages [] ''hi'' (messages fresh_session @ [user_turn ''hi'']))
       = Inr (Some \<lparr> resp_content = Missing \<rparr>)
   \<and> exchange no_content_client [] False ''hi'' fresh_session
       = (Inl (ValueError ''Malformed API response - missing content field''),
          \<lparr> messages = initial_messages,
            ui = [(''user'', Markdown ''hi''),
                  (''page'', ErrorBox (ValueError ''Malformed API response - missing content field''))] \<rparr>)"
proof -
  have a: "no_result_client (build_messages [] ''hi'' (messages fresh_session @ [user_turn ''hi''])) = Inr None"
    by (simp add: no_result_client_def)
  have b: "no_content_client (build_messages [] ''hi'' (messages fresh_session @ [user_turn ''hi'']))
       = Inr (Some \<lparr> resp_content = Missing \<rparr>)"
    by (simp add: no_content_client_def)
  have c: "more (snd (exchange no_result_client [] False ''hi'' fresh_session)) = ()"
          "more (snd (exchange no_content_client [] False ''hi'' fresh_session)) = ()"
    by simp_all
  show ?thesis
    using response_validation_aborts
            [of no_result_client "[]" "''hi''" fresh_session False "\<lparr> resp_content = Missing \<rparr>"]
          response_validation_aborts
            [of no_content_client "[]" "''hi''" fresh_session False "\<lparr> resp_content = Missing \<rparr>"]
          a b
    by (cases "exchange no_result_client [] False ''hi'' fresh_session";
        cases "exchange no_content_client [] False ''hi'' fresh_session")
       (auto simp: fresh_session_def)
qed

end
